theory Spec2Isabelle
  imports Complex_Main
begin

section \<open>The decimal numeric core\<close>

text \<open>
  The pricing functions of \<^verbatim>\<open>lmsr.js\<close> compute with the \<^verbatim>\<open>Decimal\<close> class that
  \<^verbatim>\<open>utils.js\<close> exports: decimal.js with one configured precision. Neither file is among
  the sources, so the class is modelled here, and its precision and rounding
  configuration is a parameter of every operation.

  A decimal is a finite number, one of the two infinities, or NaN. The special values
  follow decimal.js: a non-zero number divided by zero is an infinity, \<open>0 / 0\<close>,
  \<open>\<infinity> - \<infinity>\<close> and \<open>0 \<times> \<infinity>\<close> are NaN, \<open>ln 0 = -\<infinity>\<close>, the logarithm of a negative
  number is NaN, \<open>exp (-\<infinity>) = 0\<close>, and no operation raises.

  A rounding context maps the exact real result of an operation on finite operands to
  the decimal that the operation returns: the result rounded to the configured number of
  significant digits, an infinity when it is beyond the largest exponent, zero when it is
  below the smallest. Every arithmetic operation, \<^verbatim>\<open>exp\<close> and \<^verbatim>\<open>ln\<close> round their result
  that way (decimal.js documents \<^verbatim>\<open>exp\<close> and \<^verbatim>\<open>ln\<close> as correctly rounded); the
  constructor, \<^verbatim>\<open>ceil\<close>, \<^verbatim>\<open>floor\<close> and \<^verbatim>\<open>max\<close> are exact.

  The sign of zero is not modelled; it would matter only in a division by a negative
  zero, and the only such divisor of the pricing functions is the liquidity parameter of
  an empty vector, where the sums that it would divide are empty.
\<close>

datatype decimal = Fin real | PInf | NInf | NaN

type_synonym rounding = "real \<Rightarrow> decimal"

definition signed_inf :: "real \<Rightarrow> decimal" where
  "signed_inf s = (if 0 < s then PInf else if s < 0 then NInf else NaN)"

fun dsign :: "decimal \<Rightarrow> real" where
  "dsign (Fin a) = sgn a"
| "dsign PInf = 1"
| "dsign NInf = - 1"
| "dsign NaN = 0"

text \<open>Modelled from the spec: \<^verbatim>\<open>Decimal.plus\<close> of the decimal numeric core
  (decimal.js is not among the sources). The sum of two finite numbers is rounded in the
  context \<open>r\<close>, also when one of them is zero.\<close>

fun dplus :: "rounding \<Rightarrow> decimal \<Rightarrow> decimal \<Rightarrow> decimal" where
  "dplus r (Fin a) (Fin b) = r (a + b)"
| "dplus r NaN y = NaN"
| "dplus r x NaN = NaN"
| "dplus r PInf NInf = NaN"
| "dplus r NInf PInf = NaN"
| "dplus r (Fin a) y = y"
| "dplus r x y = x"

text \<open>Modelled from the spec: \<^verbatim>\<open>Decimal.minus\<close> (also called \<^verbatim>\<open>sub\<close>).\<close>

fun dminus :: "rounding \<Rightarrow> decimal \<Rightarrow> decimal \<Rightarrow> decimal" where
  "dminus r (Fin a) (Fin b) = r (a - b)"
| "dminus r NaN y = NaN"
| "dminus r x NaN = NaN"
| "dminus r PInf PInf = NaN"
| "dminus r NInf NInf = NaN"
| "dminus r (Fin a) PInf = NInf"
| "dminus r (Fin a) NInf = PInf"
| "dminus r x y = x"

text \<open>Modelled from the spec: \<^verbatim>\<open>Decimal.times\<close>.\<close>

fun dtimes :: "rounding \<Rightarrow> decimal \<Rightarrow> decimal \<Rightarrow> decimal" where
  "dtimes r (Fin a) (Fin b) = r (a * b)"
| "dtimes r NaN y = NaN"
| "dtimes r x NaN = NaN"
| "dtimes r x y = signed_inf (dsign x * dsign y)"

text \<open>Modelled from the spec: \<^verbatim>\<open>Decimal.dividedBy\<close> (also called \<^verbatim>\<open>div\<close>). Division by
  zero does not raise: it yields an infinity, or NaN for \<open>0 / 0\<close>.\<close>

fun dividedBy :: "rounding \<Rightarrow> decimal \<Rightarrow> decimal \<Rightarrow> decimal" where
  "dividedBy r NaN y = NaN"
| "dividedBy r x NaN = NaN"
| "dividedBy r (Fin a) (Fin b) = (if b = 0 then signed_inf (sgn a) else r (a / b))"
| "dividedBy r (Fin a) y = Fin 0"
| "dividedBy r x (Fin b) = signed_inf (dsign x * (if b < 0 then - 1 else 1))"
| "dividedBy r x y = NaN"

text \<open>Modelled from the spec: \<^verbatim>\<open>Decimal.exp\<close>. The exponential of a finite number is
  rounded in the context, which is where it overflows to \<open>\<infinity>\<close> or underflows to \<open>0\<close>.\<close>

fun dexp :: "rounding \<Rightarrow> decimal \<Rightarrow> decimal" where
  "dexp r (Fin a) = r (exp a)"
| "dexp r PInf = PInf"
| "dexp r NInf = Fin 0"
| "dexp r NaN = NaN"

text \<open>Modelled from the spec: \<^verbatim>\<open>Decimal.ln\<close>. The logarithm of a non-positive number
  is a value (\<open>-\<infinity>\<close> at zero, NaN below), not an exception.\<close>

fun dln :: "rounding \<Rightarrow> decimal \<Rightarrow> decimal" where
  "dln r (Fin a) = (if a < 0 then NaN else if a = 0 then NInf else r (ln a))"
| "dln r PInf = PInf"
| "dln r NInf = NaN"
| "dln r NaN = NaN"

text \<open>Modelled from the spec: \<^verbatim>\<open>Decimal.ceil\<close> and \<^verbatim>\<open>Decimal.floor\<close>, which are exact.\<close>

fun dceil :: "decimal \<Rightarrow> decimal" where
  "dceil (Fin a) = Fin (of_int \<lceil>a\<rceil>)"
| "dceil x = x"

fun dfloor :: "decimal \<Rightarrow> decimal" where
  "dfloor (Fin a) = Fin (of_int \<lfloor>a\<rfloor>)"
| "dfloor x = x"

text \<open>\<^verbatim>\<open>new Decimal(x)\<close> of an integer (given as a number or as its decimal string): the
  constructor does not round.\<close>

definition Decimal :: "int \<Rightarrow> decimal" where
  "Decimal i = Fin (of_int i)"

text \<open>The JavaScript number \<^verbatim>\<open>1+1e-9\<close> prints as \<^verbatim>\<open>1.000000001\<close>, which is the
  decimal that \<^verbatim>\<open>times\<close> and \<^verbatim>\<open>dividedBy\<close> build from it.\<close>

definition one_plus_1e_9 :: decimal where
  "one_plus_1e_9 = Fin (1000000001 / 1000000000)"

datatype error = DecimalError | TypeError

text \<open>Modelled from the spec: \<^verbatim>\<open>Decimal.max\<close> of the arguments spread from an array.
  With no argument the constructor is applied to \<^verbatim>\<open>undefined\<close>, which raises.\<close>

fun Decimal_max :: "int list \<Rightarrow> error + decimal" where
  "Decimal_max [] = Inl DecimalError"
| "Decimal_max (x # xs) = Inr (Decimal (fold max xs x))"

subsection \<open>Rounding contexts\<close>

text \<open>The context of exact arithmetic, for the statements that the specification makes
  over exact arithmetic.\<close>

definition exact :: rounding where
  "exact x = Fin x"

text \<open>Modelled from the spec: rounding to \<open>P\<close> significant digits. The decimal exponent of
  \<open>x \<noteq> 0\<close> is the \<open>d\<close> with \<open>10\<^sup>d \<le> \<bar>x\<bar> < 10\<^sup>d\<^sup>+\<^sup>1\<close>; the last digit kept has the weight
  \<open>10\<^sup>d\<^sup>-\<^sup>P\<^sup>+\<^sup>1\<close>; the digits kept spell the integer nearest to \<open>\<bar>x\<bar>\<close> in units of that
  weight, a tie being rounded away from zero (decimal.js's default mode).\<close>

definition decExponent :: "real \<Rightarrow> int" where
  "decExponent x = \<lfloor>log 10 \<bar>x\<bar>\<rfloor>"

definition ulp :: "nat \<Rightarrow> real \<Rightarrow> real" where
  "ulp P x = 10 powi (decExponent x - int P + 1)"

definition mantissa :: "nat \<Rightarrow> real \<Rightarrow> int" where
  "mantissa P x = \<lfloor>\<bar>x\<bar> / ulp P x + 1 / 2\<rfloor>"

definition toPrecision :: "nat \<Rightarrow> real \<Rightarrow> real" where
  "toPrecision P x = sgn x * of_int (mantissa P x) * ulp P x"

text \<open>Modelled from the spec: the configured context, with \<open>P\<close> significant digits and the
  exponent limit \<open>E\<close>: a rounded result of decimal exponent above \<open>E\<close> is an infinity, one
  of decimal exponent below \<open>-E\<close> is zero.\<close>

definition decimalContext :: "nat \<Rightarrow> int \<Rightarrow> rounding" where
  "decimalContext P E x =
     (let v = toPrecision P x
      in if 10 powi (E + 1) \<le> \<bar>v\<bar> then signed_inf v
         else if \<bar>v\<bar> < 10 powi (- E) then Fin 0
         else Fin v)"

text \<open>The configuration of \<^verbatim>\<open>utils.js\<close>: 80 significant digits, and the exponent limit
  \<open>9e15\<close> that decimal.js has by default.\<close>

definition configured :: rounding where
  "configured = decimalContext 80 9000000000000000"

section \<open>The pricing functions of lmsr.js\<close>

text \<open>
  Every pricing function first passes its arguments to \<^verbatim>\<open>normalizeWeb3Args\<close>
  (\<^verbatim>\<open>utils.js\<close>, not among the sources) together with the \<^verbatim>\<open>functionInputs\<close> list, which
  gives each argument a name and a Solidity type and nothing else, and then computes
  with the five values that it hands back. The functions are modelled from there on, on
  integer arguments; an omitted \<^verbatim>\<open>feeFactor\<close> has been replaced by its default \<open>0\<close>.
  \<^verbatim>\<open>lmsr.js\<close> itself contains no check of any argument.
\<close>

text \<open>The liquidity parameter, \<^verbatim>\<open>funding / ln(netOutcomeTokensSold.length)\<close>.\<close>

definition liquidity :: "rounding \<Rightarrow> int \<Rightarrow> int list \<Rightarrow> decimal" where
  "liquidity r funding netOutcomeTokensSold =
     dividedBy r (Decimal funding) (dln r (Decimal (int (length netOutcomeTokensSold))))"

text \<open>The fee factors, \<^verbatim>\<open>new Decimal(1).plus(new Decimal(feeFactor).dividedBy(1e6))\<close> and
  the same with \<^verbatim>\<open>minus\<close>.\<close>

definition feeUp :: "rounding \<Rightarrow> int \<Rightarrow> decimal" where
  "feeUp r feeFactor = dplus r (Decimal 1) (dividedBy r (Decimal feeFactor) (Decimal 1000000))"

definition feeDown :: "rounding \<Rightarrow> int \<Rightarrow> decimal" where
  "feeDown r feeFactor = dminus r (Decimal 1) (dividedBy r (Decimal feeFactor) (Decimal 1000000))"

text \<open>The reductions over \<^verbatim>\<open>netOutcomeTokensSold\<close>, each starting from \<^verbatim>\<open>new Decimal(0)\<close>.
  The first is the plain sum of \<open>exp (numShares / b)\<close>.\<close>

definition sumExp :: "rounding \<Rightarrow> decimal \<Rightarrow> int list \<Rightarrow> decimal" where
  "sumExp r b netOutcomeTokensSold =
     foldl (\<lambda>acc numShares. dplus r acc (dexp r (dividedBy r (Decimal numShares) b)))
       (Decimal 0) netOutcomeTokensSold"

text \<open>\<^verbatim>\<open>calcLMSRCost\<close>: the entry whose position is identical to \<^verbatim>\<open>outcomeTokenIndex\<close>
  gets \<^verbatim>\<open>outcomeTokenCount\<close> added, every other entry gets \<open>0\<close> added.\<close>

definition sumExpBought :: "rounding \<Rightarrow> decimal \<Rightarrow> int \<Rightarrow> decimal \<Rightarrow> int list \<Rightarrow> decimal" where
  "sumExpBought r b outcomeTokenIndex outcomeTokenCount netOutcomeTokensSold =
     foldl (\<lambda>acc (i, numShares).
         dplus r acc (dexp r (dividedBy r
           (dplus r (Decimal numShares)
              (if int i = outcomeTokenIndex then outcomeTokenCount else Decimal 0)) b)))
       (Decimal 0) (enumerate 0 netOutcomeTokensSold)"

text \<open>\<^verbatim>\<open>calcLMSRProfit\<close>: the same with \<^verbatim>\<open>minus\<close>.\<close>

definition sumExpSold :: "rounding \<Rightarrow> decimal \<Rightarrow> int \<Rightarrow> decimal \<Rightarrow> int list \<Rightarrow> decimal" where
  "sumExpSold r b outcomeTokenIndex outcomeTokenCount netOutcomeTokensSold =
     foldl (\<lambda>acc (i, numShares).
         dplus r acc (dexp r (dividedBy r
           (dminus r (Decimal numShares)
              (if int i = outcomeTokenIndex then outcomeTokenCount else Decimal 0)) b)))
       (Decimal 0) (enumerate 0 netOutcomeTokensSold)"

text \<open>\<^verbatim>\<open>calcLMSROutcomeTokenCount\<close>: every entry gets the cost net of the fee added.\<close>

definition sumExpPaid :: "rounding \<Rightarrow> decimal \<Rightarrow> decimal \<Rightarrow> int \<Rightarrow> int list \<Rightarrow> decimal" where
  "sumExpPaid r b cost feeFactor netOutcomeTokensSold =
     foldl (\<lambda>acc numShares.
         dplus r acc (dexp r (dividedBy r
           (dplus r (Decimal numShares) (dividedBy r cost (feeUp r feeFactor))) b)))
       (Decimal 0) netOutcomeTokensSold"

text \<open>\<^verbatim>\<open>calcLMSROutcomeTokenCount\<close>: the entry at \<^verbatim>\<open>outcomeTokenIndex\<close> is skipped.\<close>

definition sumExpOthers :: "rounding \<Rightarrow> decimal \<Rightarrow> int \<Rightarrow> int list \<Rightarrow> decimal" where
  "sumExpOthers r b outcomeTokenIndex netOutcomeTokensSold =
     foldl (\<lambda>acc (i, numShares).
         if int i = outcomeTokenIndex then acc
         else dplus r acc (dexp r (dividedBy r (Decimal numShares) b)))
       (Decimal 0) (enumerate 0 netOutcomeTokensSold)"

text \<open>\<^verbatim>\<open>calcLMSRMarginalPrice\<close>: every exponent has \<^verbatim>\<open>expOffset\<close> subtracted.\<close>

definition sumExpShifted :: "rounding \<Rightarrow> decimal \<Rightarrow> decimal \<Rightarrow> int list \<Rightarrow> decimal" where
  "sumExpShifted r b expOffset netOutcomeTokensSold =
     foldl (\<lambda>acc tokensSold.
         dplus r acc (dexp r (dminus r (dividedBy r (Decimal tokensSold) b) expOffset)))
       (Decimal 0) netOutcomeTokensSold"

text \<open>\<^verbatim>\<open>calcLMSRCost\<close> and \<^verbatim>\<open>calcLMSRProfit\<close> contain no statement that raises.\<close>

definition calcLMSRCost :: "rounding \<Rightarrow> int list \<Rightarrow> int \<Rightarrow> int \<Rightarrow> int \<Rightarrow> int \<Rightarrow> decimal" where
  "calcLMSRCost r netOutcomeTokensSold funding outcomeTokenIndex outcomeTokenCount feeFactor =
     (let count = Decimal outcomeTokenCount;
          baseCost =
            (if funding = 0 then count
             else
               let b = liquidity r funding netOutcomeTokensSold
               in dtimes r b
                    (dminus r
                       (dln r (sumExpBought r b outcomeTokenIndex count netOutcomeTokensSold))
                       (dln r (sumExp r b netOutcomeTokensSold))))
      in dceil (dtimes r (dtimes r baseCost (feeUp r feeFactor)) one_plus_1e_9))"

definition calcLMSRProfit :: "rounding \<Rightarrow> int list \<Rightarrow> int \<Rightarrow> int \<Rightarrow> int \<Rightarrow> int \<Rightarrow> decimal" where
  "calcLMSRProfit r netOutcomeTokensSold funding outcomeTokenIndex outcomeTokenCount feeFactor =
     (if funding = 0 then Decimal 0
      else
        let count = Decimal outcomeTokenCount;
            b = liquidity r funding netOutcomeTokensSold
        in dfloor (dividedBy r
             (dtimes r
                (dtimes r b
                   (dminus r
                      (dln r (sumExp r b netOutcomeTokensSold))
                      (dln r (sumExpSold r b outcomeTokenIndex count netOutcomeTokensSold))))
                (feeDown r feeFactor))
             one_plus_1e_9))"

text \<open>The argument of the final logarithm of \<^verbatim>\<open>calcLMSROutcomeTokenCount\<close>.\<close>

definition inversionLogArgument ::
  "rounding \<Rightarrow> int list \<Rightarrow> int \<Rightarrow> int \<Rightarrow> int \<Rightarrow> int \<Rightarrow> decimal" where
  "inversionLogArgument r netOutcomeTokensSold funding outcomeTokenIndex cost feeFactor =
     (let b = liquidity r funding netOutcomeTokensSold
      in dminus r (sumExpPaid r b (Decimal cost) feeFactor netOutcomeTokensSold)
                  (sumExpOthers r b outcomeTokenIndex netOutcomeTokensSold))"

text \<open>The last \<^verbatim>\<open>minus\<close> takes \<^verbatim>\<open>netOutcomeTokensSold[outcomeTokenIndex]\<close>: out of range
  that is \<^verbatim>\<open>undefined\<close>, which the decimal constructor refuses, after the product has
  been computed.\<close>

definition calcLMSROutcomeTokenCount ::
  "rounding \<Rightarrow> int list \<Rightarrow> int \<Rightarrow> int \<Rightarrow> int \<Rightarrow> int \<Rightarrow> error + decimal" where
  "calcLMSROutcomeTokenCount r netOutcomeTokensSold funding outcomeTokenIndex cost feeFactor =
     (let b = liquidity r funding netOutcomeTokensSold;
          scaled = dtimes r b (dln r
            (inversionLogArgument r netOutcomeTokensSold funding outcomeTokenIndex cost feeFactor))
      in if 0 \<le> outcomeTokenIndex \<and> outcomeTokenIndex < int (length netOutcomeTokensSold)
         then Inr (dfloor (dminus r scaled
                (Decimal (netOutcomeTokensSold ! nat outcomeTokenIndex))))
         else Inl DecimalError)"

text \<open>In \<^verbatim>\<open>calcLMSRMarginalPrice\<close> the read \<^verbatim>\<open>netOutcomeTokensSold[outcomeTokenIndex].valueOf()\<close>
  raises a TypeError out of range, after \<^verbatim>\<open>Decimal.max\<close> has been evaluated.\<close>

definition calcLMSRMarginalPrice :: "rounding \<Rightarrow> int list \<Rightarrow> int \<Rightarrow> int \<Rightarrow> error + decimal" where
  "calcLMSRMarginalPrice r netOutcomeTokensSold funding outcomeTokenIndex =
     (if funding = 0 \<and> list_all (\<lambda>quantity. quantity = 0) netOutcomeTokensSold
      then Inr (dividedBy r (Decimal 1) (Decimal (int (length netOutcomeTokensSold))))
      else
        let b = liquidity r funding netOutcomeTokensSold
        in case Decimal_max netOutcomeTokensSold of
             Inl e \<Rightarrow> Inl e
           | Inr m \<Rightarrow>
               let expOffset = dividedBy r m b
               in if 0 \<le> outcomeTokenIndex \<and> outcomeTokenIndex < int (length netOutcomeTokensSold)
                  then Inr (dividedBy r
                         (dexp r (dminus r
                            (dividedBy r (Decimal (netOutcomeTokensSold ! nat outcomeTokenIndex)) b)
                            expOffset))
                         (sumExpShifted r b expOffset netOutcomeTokensSold))
                  else Inl TypeError)"

section \<open>Notions used in the statements\<close>

text \<open>The arguments are values of the Solidity types that the \<^verbatim>\<open>functionInputs\<close> list
  shared by the three five-argument functions declares: \<^verbatim>\<open>int256[]\<close>, \<^verbatim>\<open>uint256\<close>,
  \<^verbatim>\<open>uint8\<close>, \<^verbatim>\<open>uint256\<close> and \<^verbatim>\<open>uint24\<close>. The pricing functions do not check this; it
  delimits the inputs that the statements are about.\<close>

definition fitsInputs :: "int list \<Rightarrow> int \<Rightarrow> int \<Rightarrow> int \<Rightarrow> int \<Rightarrow> bool" where
  "fitsInputs netOutcomeTokensSold funding outcomeTokenIndex amount feeFactor =
     (list_all (\<lambda>v. - (2 ^ 255) \<le> v \<and> v < 2 ^ 255) netOutcomeTokensSold
      \<and> 0 \<le> funding \<and> funding < 2 ^ 256
      \<and> 0 \<le> outcomeTokenIndex \<and> outcomeTokenIndex < 2 ^ 8
      \<and> 0 \<le> amount \<and> amount < 2 ^ 256
      \<and> 0 \<le> feeFactor \<and> feeFactor < 2 ^ 24)"

text \<open>The same for the \<^verbatim>\<open>functionInputs\<close> list of \<^verbatim>\<open>calcLMSRMarginalPrice\<close>.\<close>

definition fitsPriceInputs :: "int list \<Rightarrow> int \<Rightarrow> int \<Rightarrow> bool" where
  "fitsPriceInputs netOutcomeTokensSold funding outcomeTokenIndex =
     (list_all (\<lambda>v. - (2 ^ 255) \<le> v \<and> v < 2 ^ 255) netOutcomeTokensSold
      \<and> 0 \<le> funding \<and> funding < 2 ^ 256
      \<and> 0 \<le> outcomeTokenIndex \<and> outcomeTokenIndex < 2 ^ 8)"

text \<open>The specification's liquidity parameter over exact arithmetic, \<open>b = funding / ln n\<close>.\<close>

definition spec_b :: "int \<Rightarrow> nat \<Rightarrow> real" where
  "spec_b funding n = real_of_int funding / ln (real n)"

text \<open>The specification's unshifted log-sum-exp, \<open>ln (\<Sum> exp v\<^sub>i)\<close>, evaluated in the
  context \<open>r\<close>: the sum is taken from \<open>0\<close>, left to right.\<close>

definition spec_logSumExp :: "rounding \<Rightarrow> decimal list \<Rightarrow> decimal" where
  "spec_logSumExp r vs = dln r (foldl (dplus r) (Decimal 0) (map (dexp r) vs))"

text \<open>The specification's cost before the final rounding up, evaluated in the context
  \<open>r\<close>: with \<open>b = funding / ln n\<close> and \<open>sold'\<close> the vector with \<open>k\<close> added at the index,
  \<open>baseCost = b \<times> (logSumExp (sold' / b) - logSumExp (sold / b))\<close>, times the fee factor
  \<open>1 + f / 1e6\<close>, times \<open>1 + 1e-9\<close>.\<close>

definition spec_cost :: "rounding \<Rightarrow> int list \<Rightarrow> int \<Rightarrow> nat \<Rightarrow> int \<Rightarrow> int \<Rightarrow> decimal" where
  "spec_cost r sold funding i k f =
     (let b = dividedBy r (Decimal funding) (dln r (Decimal (int (length sold))));
          sold' = sold[i := sold ! i + k];
          baseCost = dtimes r b
            (dminus r (spec_logSumExp r (map (\<lambda>s. dividedBy r (Decimal s) b) sold'))
                      (spec_logSumExp r (map (\<lambda>s. dividedBy r (Decimal s) b) sold)))
      in dtimes r
           (dtimes r baseCost
              (dplus r (Decimal 1) (dividedBy r (Decimal f) (Decimal (10 ^ 6)))))
           (Fin (1 + 1 / 10 ^ 9)))"

text \<open>The specification's unshifted price over exact arithmetic,
  \<open>exp (sold\<^sub>i / b) / \<Sum>\<^sub>j exp (sold\<^sub>j / b)\<close>.\<close>

definition spec_unshifted_price :: "int list \<Rightarrow> int \<Rightarrow> nat \<Rightarrow> real" where
  "spec_unshifted_price sold funding i =
     (let b = spec_b funding (length sold)
      in exp (real_of_int (sold ! i) / b) / (\<Sum>s\<leftarrow>sold. exp (real_of_int s / b)))"

text \<open>A real-valued abbreviation for the proofs over exact arithmetic: the sum of the
  exponentials.\<close>

definition sumExpR :: "real \<Rightarrow> int list \<Rightarrow> real" where
  "sumExpR \<beta> xs = (\<Sum>s\<leftarrow>xs. exp (real_of_int s / \<beta>))"

text \<open>The order of the decimals: \<open>-\<infinity>\<close> below and \<open>\<infinity>\<close> above every finite number, NaN
  comparable with nothing.\<close>

fun dle :: "decimal \<Rightarrow> decimal \<Rightarrow> bool" where
  "dle NaN y = False"
| "dle x NaN = False"
| "dle NInf y = True"
| "dle x PInf = True"
| "dle (Fin a) (Fin b) = (a \<le> b)"
| "dle x y = False"

text \<open>Two decimals are in order unless one of them is NaN.\<close>

definition orderedOrNaN :: "decimal \<Rightarrow> decimal \<Rightarrow> bool" where
  "orderedOrNaN x y = (x = NaN \<or> y = NaN \<or> dle x y)"

text \<open>A decimal is not negative when it is a finite number from \<open>0\<close> on, \<open>\<infinity>\<close>, or NaN.\<close>

fun notNegative :: "decimal \<Rightarrow> bool" where
  "notNegative (Fin a) = (0 \<le> a)"
| "notNegative PInf = True"
| "notNegative NInf = False"
| "notNegative NaN = True"

text \<open>A decimal is non-positive when it is a finite number at most \<open>0\<close>, or \<open>-\<infinity>\<close>.\<close>

fun nonPositive :: "decimal \<Rightarrow> bool" where
  "nonPositive (Fin a) = (a \<le> 0)"
| "nonPositive NInf = True"
| "nonPositive PInf = False"
| "nonPositive NaN = False"


text \<open>A decimal that is no finite number.\<close>

fun notFinite :: "decimal \<Rightarrow> bool" where
  "notFinite (Fin a) = False"
| "notFinite d = True"

text \<open>Properties of a rounding context. It is monotone when a larger exact result never
  rounds to a smaller decimal (so no result rounds to NaN), and it represents the
  integers exactly when it returns every integer that the sum of an \<^verbatim>\<open>int256\<close> and a
  \<^verbatim>\<open>uint256\<close> can be as it is.\<close>

definition monotoneRounding :: "rounding \<Rightarrow> bool" where
  "monotoneRounding r = (\<forall>x y. x \<le> y \<longrightarrow> dle (r x) (r y))"

definition exactOnIntegers :: "rounding \<Rightarrow> bool" where
  "exactOnIntegers r = (\<forall>m. \<bar>m\<bar> < 2 ^ 257 \<longrightarrow> r (of_int m) = Fin (of_int m))"

text \<open>The value of the variable \<^verbatim>\<open>baseCost\<close> of \<^verbatim>\<open>calcLMSRCost\<close>, and the corresponding
  factor of \<^verbatim>\<open>calcLMSRProfit\<close> in a funded market.\<close>

definition baseCost :: "rounding \<Rightarrow> int list \<Rightarrow> int \<Rightarrow> int \<Rightarrow> int \<Rightarrow> decimal" where
  "baseCost r sold funding i k =
     (if funding = 0 then Decimal k
      else
        let b = liquidity r funding sold
        in dtimes r b
             (dminus r (dln r (sumExpBought r b i (Decimal k) sold)) (dln r (sumExp r b sold))))"


section \<open>Reductions and values over exact arithmetic\<close>

lemma foldl_dplus_Fin:
  assumes "\<And>x. x \<in> set xs \<Longrightarrow> h x = Fin (g x)"
  shows "foldl (\<lambda>acc x. dplus exact acc (h x)) (Fin a) xs = Fin (a + sum_list (map g xs))"
  using assms by (induction xs arbitrary: a) (simp_all add: add.assoc exact_def)

lemma sumExpR_pos: "xs \<noteq> [] \<Longrightarrow> 0 < sumExpR \<beta> xs"
  unfolding sumExpR_def
  by (induction xs) (auto intro!: add_pos_nonneg sum_list_nonneg)

lemma spec_b_pos: "0 < F \<Longrightarrow> 2 \<le> n \<Longrightarrow> 0 < spec_b F n"
  by (simp add: spec_b_def)

lemma liquidity_funded:
  assumes "0 < F" "2 \<le> length xs"
  shows "liquidity exact F xs = Fin (spec_b F (length xs))"
  using assms by (simp add: liquidity_def spec_b_def Decimal_def exact_def)

lemma sumExpShifted_Fin:
  assumes "\<beta> \<noteq> 0"
  shows "sumExpShifted exact (Fin \<beta>) (Fin m) xs = Fin (exp (- m) * sumExpR \<beta> xs)"
proof -
  have "sumExpShifted exact (Fin \<beta>) (Fin m) xs
        = Fin (0 + sum_list (map (\<lambda>s. exp (real_of_int s / \<beta> - m)) xs))"
    unfolding sumExpShifted_def Decimal_def of_int_0
    using assms by (intro foldl_dplus_Fin) (simp add: exact_def)
  also have "sum_list (map (\<lambda>s. exp (real_of_int s / \<beta> - m)) xs)
             = exp (- m) * sumExpR \<beta> xs"
    unfolding sumExpR_def
    by (simp add: sum_list_const_mult [symmetric] exp_diff exp_minus field_simps)
  finally show ?thesis by simp
qed

lemma calcLMSRMarginalPrice_funded:
  assumes fit: "fitsPriceInputs xs F i" and F: "0 < F" and n: "2 \<le> length xs"
    and i: "i < int (length xs)"
  shows "calcLMSRMarginalPrice exact xs F i
         = Inr (Fin (exp (real_of_int (xs ! nat i) / spec_b F (length xs))
                     / sumExpR (spec_b F (length xs)) xs))"
proof -
  let ?\<beta> = "spec_b F (length xs)"
  have \<beta>: "?\<beta> \<noteq> 0" using spec_b_pos [OF F n] by simp
  have i0: "0 \<le> i" using fit by (simp add: fitsPriceInputs_def)
  obtain y ys where xs: "xs = y # ys" using n by (cases xs) auto
  define m where "m = real_of_int (fold max ys y) / ?\<beta>"
  have S: "0 < sumExpR ?\<beta> xs" using xs by (intro sumExpR_pos) simp
  have mx: "Decimal_max xs = Inr (Decimal (fold max ys y))" by (simp add: xs)
  have off: "dividedBy exact (Decimal (fold max ys y)) (Fin ?\<beta>) = Fin m"
    using \<beta> by (simp add: Decimal_def m_def exact_def)
  have "calcLMSRMarginalPrice exact xs F i
        = Inr (dividedBy exact (Fin (exp (real_of_int (xs ! nat i) / ?\<beta> - m)))
                 (Fin (exp (- m) * sumExpR ?\<beta> xs)))"
    using F i i0 \<beta>
    by (simp add: calcLMSRMarginalPrice_def liquidity_funded [OF F n]
        mx off sumExpShifted_Fin [OF \<beta>]) (simp add: Decimal_def exact_def)
  also have "\<dots> = Inr (Fin (exp (real_of_int (xs ! nat i) / ?\<beta> - m)
                           / (exp (- m) * sumExpR ?\<beta> xs)))"
    using S by (simp add: exact_def)
  also have "exp (real_of_int (xs ! nat i) / ?\<beta> - m) / (exp (- m) * sumExpR ?\<beta> xs)
             = exp (real_of_int (xs ! nat i) / ?\<beta>) / sumExpR ?\<beta> xs"
    by (simp add: exp_diff exp_minus field_simps)
  finally show ?thesis .
qed

section \<open>Order and sign through a monotone context\<close>

lemma monotone_dle: "monotoneRounding r \<Longrightarrow> x \<le> y \<Longrightarrow> dle (r x) (r y)"
  by (simp add: monotoneRounding_def)

lemma exactOnIntegers_int: "exactOnIntegers r \<Longrightarrow> \<bar>m\<bar> < 2 ^ 257 \<Longrightarrow> r (of_int m) = Fin (of_int m)"
  by (simp add: exactOnIntegers_def)



lemma dle_NInf [simp]: "dle NInf d = (d \<noteq> NaN)"
  by (cases d) simp_all

lemma dle_PInf [simp]: "dle d PInf = (d \<noteq> NaN)"
  by (cases d) simp_all


lemma notNegative_iff: "notNegative d \<longleftrightarrow> orderedOrNaN (Fin 0) d"
  by (cases d) (simp_all add: orderedOrNaN_def)

lemma monotone_ordered: "monotoneRounding r \<Longrightarrow> x \<le> y \<Longrightarrow> orderedOrNaN (r x) (r y)"
  by (simp add: orderedOrNaN_def monotone_dle)

lemma monotone_nonneg:
  assumes "monotoneRounding r" "r 0 = Fin 0" "0 \<le> x"
  shows "notNegative (r x)"
  using monotone_ordered [OF assms(1,3)] assms(2) by (simp add: notNegative_iff)























subsection \<open>The reductions\<close>

lemma case_prod_fold: "(\<lambda>acc (i, s). F acc i s) = (\<lambda>acc x. F acc (fst x) (snd x))"
  by (simp add: fun_eq_iff split: prod.split)


lemma notNegative_term:
  assumes "monotoneRounding r" "r 0 = Fin 0"
  shows "notNegative (dexp r d)"
  using monotone_nonneg [OF assms, of "exp x" for x] by (cases d) auto


lemma int256_exact:
  assumes "exactOnIntegers r" "- (2 ^ 255) \<le> s" "s < 2 ^ 255"
  shows "r (real_of_int s) = Fin (real_of_int s)"
  using assms(2,3) by (intro exactOnIntegers_int [OF assms(1)]) simp









subsection \<open>Selling nothing, and an index that is no position\<close>

lemma sumExp_map:
  "sumExp r b sold
   = foldl (dplus r) (Decimal 0) (map (dexp r) (map (\<lambda>s. dividedBy r (Decimal s) b) sold))"
  by (simp add: sumExp_def foldl_map)

lemma sumExpBought_map:
  assumes r: "exactOnIntegers r"
    and sold: "list_all (\<lambda>v. - (2 ^ 255) \<le> v \<and> v < 2 ^ 255) sold"
    and k: "0 \<le> k" "k < 2 ^ 256" and idx: "0 \<le> idx" "idx < int (length sold)"
  shows "sumExpBought r b idx (Decimal k) sold
         = foldl (dplus r) (Decimal 0) (map (dexp r)
             (map (\<lambda>s. dividedBy r (Decimal s) b) (sold[nat idx := sold ! nat idx + k])))"
proof -
  let ?h = "\<lambda>x. dexp r (dividedBy r (dplus r (Decimal (snd x))
              (if int (fst x) = idx then Decimal k else Decimal 0)) b)"
  have "map ?h (enumerate 0 sold)
        = map (dexp r) (map (\<lambda>s. dividedBy r (Decimal s) b) (sold[nat idx := sold ! nat idx + k]))"
  proof (intro nth_equalityI)
    fix j assume "j < length (map ?h (enumerate 0 sold))"
    then have j: "j < length sold" by simp
    then have s: "- (2 ^ 255) \<le> sold ! j" "sold ! j < 2 ^ 255"
      using sold by (simp_all add: list_all_length)
    have plain: "r (real_of_int (sold ! j)) = Fin (real_of_int (sold ! j))"
      by (rule int256_exact [OF r s])
    have "\<bar>sold ! j + k\<bar> < 2 ^ 257" using s k by simp
    then have "r (real_of_int (sold ! j + k)) = Fin (real_of_int (sold ! j + k))"
      by (rule exactOnIntegers_int [OF r])
    then have bumped: "r (real_of_int (sold ! j) + real_of_int k)
                       = Fin (real_of_int (sold ! j) + real_of_int k)"
      by simp
    show "map ?h (enumerate 0 sold) ! j
          = map (dexp r) (map (\<lambda>s. dividedBy r (Decimal s) b)
              (sold[nat idx := sold ! nat idx + k])) ! j"
      using j idx plain bumped
      by (auto simp: nth_enumerate_eq nth_list_update Decimal_def)
  qed simp
  moreover have "sumExpBought r b idx (Decimal k) sold
                 = foldl (dplus r) (Decimal 0) (map ?h (enumerate 0 sold))"
    by (simp add: sumExpBought_def case_prod_fold foldl_map)
  ultimately show ?thesis by simp
qed


lemma sumExpBought_no_position:
  assumes "\<not> (0 \<le> idx \<and> idx < int (length sold))"
  shows "sumExpBought r b idx c sold = sumExpBought r b idx c' sold"
proof -
  let ?h = "\<lambda>c x. dexp r (dividedBy r (dplus r (Decimal (snd x))
              (if int (fst x) = idx then c else Decimal 0)) b)"
  have m: "map (?h c) (enumerate 0 sold) = map (?h c') (enumerate 0 sold)"
    using assms by (intro map_cong refl) (auto simp: in_set_enumerate_eq)
  have s: "sumExpBought r b idx d sold
           = foldl (dplus r) (Decimal 0) (map (?h d) (enumerate 0 sold))" for d
    by (simp add: sumExpBought_def case_prod_fold foldl_map)
  show ?thesis by (simp only: s m)
qed

lemma sumExpSold_no_position:
  assumes "\<not> (0 \<le> idx \<and> idx < int (length sold))"
  shows "sumExpSold r b idx c sold = sumExpSold r b idx c' sold"
proof -
  let ?h = "\<lambda>c x. dexp r (dividedBy r (dminus r (Decimal (snd x))
              (if int (fst x) = idx then c else Decimal 0)) b)"
  have m: "map (?h c) (enumerate 0 sold) = map (?h c') (enumerate 0 sold)"
    using assms by (intro map_cong refl) (auto simp: in_set_enumerate_eq)
  have s: "sumExpSold r b idx d sold
           = foldl (dplus r) (Decimal 0) (map (?h d) (enumerate 0 sold))" for d
    by (simp add: sumExpSold_def case_prod_fold foldl_map)
  show ?thesis by (simp only: s m)
qed







section \<open>Rounding to a fixed number of significant digits\<close>

lemma powr_powi_10: "10 powr real_of_int k = (10::real) powi k"
  by (rule powr_real_of_int') simp_all

lemma decExponent_bounds:
  assumes "x \<noteq> 0"
  shows "10 powi decExponent x \<le> \<bar>x\<bar>" and "\<bar>x\<bar> < 10 powi (decExponent x + 1)"
proof -
  have pos: "0 < \<bar>x\<bar>" using assms by simp
  have "10 powr real_of_int (decExponent x) \<le> \<bar>x\<bar>
        \<and> \<bar>x\<bar> < 10 powr real_of_int (decExponent x + 1)"
    using floor_log_eq_powr_iff [of "\<bar>x\<bar>" 10 "decExponent x"] pos
    by (simp add: decExponent_def)
  then show "10 powi decExponent x \<le> \<bar>x\<bar>" and "\<bar>x\<bar> < 10 powi (decExponent x + 1)"
    by (simp_all only: powr_powi_10)
qed

lemma decExponent_unique:
  assumes "10 powi d \<le> \<bar>x\<bar>" and "\<bar>x\<bar> < 10 powi (d + 1)"
  shows "decExponent x = d"
proof -
  have "0 < (10::real) powi d" by simp
  then have pos: "0 < \<bar>x\<bar>" using assms(1) by linarith
  have "10 powr real_of_int d \<le> \<bar>x\<bar> \<and> \<bar>x\<bar> < 10 powr real_of_int (d + 1)"
    using assms by (simp only: powr_powi_10)
  then show ?thesis
    using floor_log_eq_powr_iff [of "\<bar>x\<bar>" 10 d] pos
    by (simp add: decExponent_def)
qed

lemma toPrecision_eq: "toPrecision P x = sgn x * of_int (mantissa P x) * ulp P x"
  by (simp add: toPrecision_def)

lemma ulp_pos: "0 < ulp P x"
  by (simp add: ulp_def)

lemma pow10_add: "(10::real) powi (m + n) = 10 powi m * 10 powi n"
  by (rule power_int_add) simp

lemma ulp_scale:
  assumes "1 \<le> P"
  shows "10 ^ (P - 1) * ulp P x = 10 powi decExponent x"
    and "10 ^ P * ulp P x = 10 powi (decExponent x + 1)"
proof -
  obtain p where P: "P = Suc p" using assms by (cases P) simp_all
  have "(10::real) powi (int p) * 10 powi (decExponent x - int P + 1)
        = 10 powi (int p + (decExponent x - int P + 1))"
    by (rule pow10_add [symmetric])
  moreover have "int p + (decExponent x - int P + 1) = decExponent x"
    using P by simp
  ultimately have "(10::real) powi (int p) * ulp P x = 10 powi decExponent x"
    by (simp only: ulp_def)
  then show "10 ^ (P - 1) * ulp P x = 10 powi decExponent x"
    using P by simp
  have "(10::real) powi (int P) * 10 powi (decExponent x - int P + 1)
        = 10 powi (int P + (decExponent x - int P + 1))"
    by (rule pow10_add [symmetric])
  moreover have "int P + (decExponent x - int P + 1) = decExponent x + 1"
    by simp
  ultimately have "(10::real) powi (int P) * ulp P x = 10 powi (decExponent x + 1)"
    by (simp only: ulp_def)
  then show "10 ^ P * ulp P x = 10 powi (decExponent x + 1)"
    by simp
qed

lemma scaled_range:
  assumes "x \<noteq> 0" "1 \<le> P"
  shows "10 ^ (P - 1) \<le> \<bar>x\<bar> / ulp P x" and "\<bar>x\<bar> / ulp P x < 10 ^ P"
proof -
  have "10 ^ (P - 1) * ulp P x \<le> \<bar>x\<bar>"
    using decExponent_bounds(1) [OF assms(1)] ulp_scale(1) [OF assms(2), of x] by simp
  then show "10 ^ (P - 1) \<le> \<bar>x\<bar> / ulp P x"
    using ulp_pos [of P x] by (simp add: pos_le_divide_eq)
  have "\<bar>x\<bar> < 10 ^ P * ulp P x"
    using decExponent_bounds(2) [OF assms(1)] ulp_scale(2) [OF assms(2), of x] by simp
  then show "\<bar>x\<bar> / ulp P x < 10 ^ P"
    using ulp_pos [of P x] by (simp add: pos_divide_less_eq)
qed

lemma mantissa_range:
  assumes "x \<noteq> 0" "1 \<le> P"
  shows "10 ^ (P - 1) \<le> mantissa P x" and "mantissa P x \<le> 10 ^ P"
proof -
  have "real_of_int (10 ^ (P - 1)) \<le> \<bar>x\<bar> / ulp P x + 1 / 2"
    using scaled_range(1) [OF assms] by simp
  then show "10 ^ (P - 1) \<le> mantissa P x"
    unfolding mantissa_def by (simp only: le_floor_iff)
  have "\<bar>x\<bar> / ulp P x + 1 / 2 < real_of_int (10 ^ P + 1)"
    using scaled_range(2) [OF assms] by simp
  then have "mantissa P x < 10 ^ P + 1"
    unfolding mantissa_def by (simp only: floor_less_iff)
  then show "mantissa P x \<le> 10 ^ P" by simp
qed

lemma toPrecision_zero: "toPrecision P 0 = 0"
  by (simp add: toPrecision_eq)

lemma toPrecision_minus: "toPrecision P (- x) = - toPrecision P x"
  by (simp add: toPrecision_eq mantissa_def ulp_def decExponent_def sgn_minus)

lemma toPrecision_abs:
  assumes "x \<noteq> 0" "1 \<le> P"
  shows "\<bar>toPrecision P x\<bar> = of_int (mantissa P x) * ulp P x"
proof -
  have "0 \<le> mantissa P x"
    using mantissa_range(1) [OF assms] by (meson order_trans zero_le_numeral zero_le_power)
  then show ?thesis
    using assms(1) ulp_pos [of P x]
    by (simp add: toPrecision_eq abs_mult abs_sgn_eq)
qed

lemma toPrecision_bounds:
  assumes "x \<noteq> 0" "1 \<le> P"
  shows "10 powi decExponent x \<le> \<bar>toPrecision P x\<bar>"
    and "\<bar>toPrecision P x\<bar> \<le> 10 powi (decExponent x + 1)"
proof -
  have "real_of_int (10 ^ (P - 1)) * ulp P x \<le> real_of_int (mantissa P x) * ulp P x"
    using mantissa_range(1) [OF assms] ulp_pos [of P x]
    by (intro mult_right_mono) simp_all
  then show "10 powi decExponent x \<le> \<bar>toPrecision P x\<bar>"
    using ulp_scale(1) [OF assms(2), of x] toPrecision_abs [OF assms] by simp
  have "real_of_int (mantissa P x) * ulp P x \<le> real_of_int (10 ^ P) * ulp P x"
    using mantissa_range(2) [OF assms] ulp_pos [of P x]
    by (intro mult_right_mono) simp_all
  then show "\<bar>toPrecision P x\<bar> \<le> 10 powi (decExponent x + 1)"
    using ulp_scale(2) [OF assms(2), of x] toPrecision_abs [OF assms] by simp
qed

lemma toPrecision_sgn:
  assumes "1 \<le> P"
  shows "sgn (toPrecision P x) = sgn x"
proof (cases "x = 0")
  case True
  then show ?thesis by (simp add: toPrecision_zero)
next
  case False
  have "0 < mantissa P x"
    using mantissa_range(1) [OF False assms]
    by (meson less_le_trans zero_less_numeral zero_less_power)
  then show ?thesis
    using ulp_pos [of P x] by (simp add: toPrecision_eq sgn_mult)
qed


lemma pow10_le: "m \<le> n \<Longrightarrow> (10::real) powi m \<le> 10 powi n"
  by (rule power_int_increasing) simp_all

lemma pow10_less_imp: "(10::real) powi m < 10 powi n \<Longrightarrow> m < n"
  using pow10_le [of n m] by (cases "m < n") simp_all

lemma toPrecision_exact:
  assumes P: "1 \<le> P" and x: "x = of_int m * 10 powi e" and m: "\<bar>m\<bar> < 10 ^ P"
  shows "toPrecision P x = x"
proof (cases "m = 0")
  case True
  then show ?thesis using x by (simp add: toPrecision_zero)
next
  case False
  then have x0: "x \<noteq> 0" using x by simp
  define d where "d = decExponent x"
  have absx: "\<bar>x\<bar> = of_int \<bar>m\<bar> * 10 powi e"
    using x by (simp add: abs_mult)
  have "real_of_int \<bar>m\<bar> < real_of_int (10 ^ P)"
    using m by (simp only: of_int_less_iff)
  then have "real_of_int \<bar>m\<bar> < 10 ^ P" by simp
  then have "\<bar>x\<bar> < 10 ^ P * 10 powi e"
    unfolding absx by (intro mult_strict_right_mono) simp_all
  also have "\<dots> = 10 powi (int P + e)"
    by (simp add: pow10_add)
  finally have "10 powi d < (10::real) powi (int P + e)"
    using decExponent_bounds(1) [OF x0] unfolding d_def by linarith
  then have dlt: "d < int P + e" by (rule pow10_less_imp)
  define j where "j = nat (e + int P - 1 - d)"
  have j: "int j = e + int P - 1 - d" using dlt by (simp add: j_def)
  have "(10::real) powi e = 10 powi (int j + (d - int P + 1))"
    using j by simp
  also have "\<dots> = 10 ^ j * ulp P x"
    by (simp add: pow10_add ulp_def d_def)
  finally have e: "(10::real) powi e = 10 ^ j * ulp P x" .
  define N where "N = \<bar>m\<bar> * 10 ^ j"
  have scaled: "\<bar>x\<bar> / ulp P x = of_int N"
    using ulp_pos [of P x] unfolding absx e N_def by simp
  have "mantissa P x = N"
    unfolding mantissa_def scaled by (intro floor_unique) simp_all
  then have "toPrecision P x = sgn x * (\<bar>x\<bar> / ulp P x) * ulp P x"
    unfolding toPrecision_eq scaled by simp
  also have "\<dots> = sgn x * \<bar>x\<bar>"
    using ulp_pos [of P x] by simp
  finally show ?thesis by (simp add: sgn_mult_abs)
qed

lemma toPrecision_bracket:
  assumes P: "1 \<le> P" and lo: "10 powi p \<le> \<bar>x\<bar>" and hi: "\<bar>x\<bar> \<le> 10 powi q"
  shows "10 powi p \<le> \<bar>toPrecision P x\<bar>" and "\<bar>toPrecision P x\<bar> \<le> 10 powi q"
proof -
  have "0 < (10::real) powi p" by simp
  then have "0 < \<bar>x\<bar>" using lo by linarith
  then have x0: "x \<noteq> 0" by simp
  have "(10::real) powi p < 10 powi (decExponent x + 1)"
    using lo decExponent_bounds(2) [OF x0] by linarith
  then have "p \<le> decExponent x" using pow10_less_imp by fastforce
  then have "(10::real) powi p \<le> 10 powi decExponent x" by (rule pow10_le)
  then show "10 powi p \<le> \<bar>toPrecision P x\<bar>"
    using toPrecision_bounds(1) [OF x0 P] by linarith
  show "\<bar>toPrecision P x\<bar> \<le> 10 powi q"
  proof (cases "\<bar>x\<bar> = 10 powi q")
    case True
    have "x = of_int (if 0 < x then 1 else - 1) * 10 powi q"
      using True x0 by (auto simp: abs_if split: if_splits)
    moreover have "\<bar>if 0 < x then 1 else - 1 :: int\<bar> < 10 ^ P"
      using P by (simp add: one_less_power)
    ultimately have "toPrecision P x = x"
      by (intro toPrecision_exact [OF P])
    then show ?thesis using True by simp
  next
    case False
    then have "(10::real) powi decExponent x < 10 powi q"
      using hi decExponent_bounds(1) [OF x0] by linarith
    then have "decExponent x + 1 \<le> q" using pow10_less_imp by fastforce
    then have "(10::real) powi (decExponent x + 1) \<le> 10 powi q" by (rule pow10_le)
    then show ?thesis
      using toPrecision_bounds(2) [OF x0 P] by linarith
  qed
qed




subsection \<open>The configured context\<close>

lemma decimalContext_zero: "decimalContext P E 0 = Fin 0"
proof -
  have "\<not> (10::real) powi (E + 1) \<le> 0"
    using zero_less_power_int [of "10::real" "E + 1"] by linarith
  then show ?thesis
    by (simp add: decimalContext_def toPrecision_zero Let_def)
qed

lemma decimalContext_finite:
  assumes "10 powi (- E) \<le> \<bar>toPrecision P x\<bar>" and "\<bar>toPrecision P x\<bar> < 10 powi (E + 1)"
  shows "decimalContext P E x = Fin (toPrecision P x)"
  using assms by (simp add: decimalContext_def Let_def)

lemma decimalContext_bracket:
  assumes P: "1 \<le> P" and p: "- E \<le> p" and q: "q \<le> E"
    and lo: "10 powi p \<le> x" and hi: "x \<le> 10 powi q"
  shows "\<exists>v. decimalContext P E x = Fin v \<and> 10 powi p \<le> v \<and> v \<le> 10 powi q"
proof -
  have "0 < (10::real) powi p" by simp
  then have x: "0 < x" using lo by linarith
  then have ax: "\<bar>x\<bar> = x" by simp
  have pos: "toPrecision P x = \<bar>toPrecision P x\<bar>"
    using toPrecision_sgn [OF P, of x] x by (simp add: sgn_if split: if_splits)
  have b: "10 powi p \<le> \<bar>toPrecision P x\<bar>" "\<bar>toPrecision P x\<bar> \<le> 10 powi q"
    using toPrecision_bracket [OF P, of p x q] lo hi ax by simp_all
  have "(10::real) powi (- E) \<le> 10 powi p" using p by (rule pow10_le)
  moreover have "(10::real) powi q < 10 powi (E + 1)"
    using q by (intro power_int_strict_increasing) simp_all
  ultimately have "decimalContext P E x = Fin (toPrecision P x)"
    using b by (intro decimalContext_finite) linarith+
  then show ?thesis using b pos by simp
qed

lemma decimalContext_minus:
  "decimalContext P E (- x)
   = (case decimalContext P E x of
        Fin v \<Rightarrow> Fin (- v) | PInf \<Rightarrow> NInf | NInf \<Rightarrow> PInf | NaN \<Rightarrow> NaN)"
  by (simp add: decimalContext_def toPrecision_minus Let_def signed_inf_def)

lemma decimalContext_bracket_neg:
  assumes P: "1 \<le> P" and p: "- E \<le> p" and q: "q \<le> E"
    and lo: "- (10 powi q) \<le> x" and hi: "x \<le> - (10 powi p)"
  shows "\<exists>v. decimalContext P E x = Fin v \<and> - (10 powi q) \<le> v \<and> v \<le> - (10 powi p)"
proof -
  obtain v where v: "decimalContext P E (- x) = Fin v" "10 powi p \<le> v" "v \<le> 10 powi q"
    using decimalContext_bracket [OF P p q, of "- x"] lo hi by auto
  have "decimalContext P E x = Fin (- v)"
    using decimalContext_minus [of P E "- x"] v(1) by simp
  then show ?thesis using v by simp
qed

lemma decimalContext_exact:
  assumes P: "1 \<le> P" and x: "x = of_int m * 10 powi e" and m: "\<bar>m\<bar> < 10 ^ P"
    and range: "x = 0 \<or> 10 powi (- E) \<le> \<bar>x\<bar> \<and> \<bar>x\<bar> < 10 powi (E + 1)"
  shows "decimalContext P E x = Fin x"
proof (cases "x = 0")
  case True
  then show ?thesis by (simp add: decimalContext_zero)
next
  case False
  have "toPrecision P x = x" by (rule toPrecision_exact [OF P x m])
  then show ?thesis
    using decimalContext_finite [of E P x] range False by simp
qed


lemma decimalContext_underflow:
  assumes P: "1 \<le> P" and E: "0 \<le> E" and x: "\<bar>x\<bar> < 10 powi (- E - 1)"
  shows "decimalContext P E x = Fin 0"
proof (cases "x = 0")
  case True
  then show ?thesis by (simp add: decimalContext_zero)
next
  case False
  have "(10::real) powi decExponent x < 10 powi (- E - 1)"
    using decExponent_bounds(1) [OF False] x by linarith
  then have "decExponent x + 1 \<le> - E - 1" using pow10_less_imp by fastforce
  then have "(10::real) powi (decExponent x + 1) \<le> 10 powi (- E - 1)" by (rule pow10_le)
  moreover have "(10::real) powi (- E - 1) < 10 powi (- E)"
    by (intro power_int_strict_increasing) simp_all
  ultimately have small: "\<bar>toPrecision P x\<bar> < 10 powi (- E)"
    using toPrecision_bounds(2) [OF False P] by linarith
  have "(10::real) powi (- E) \<le> 10 powi (E + 1)"
    using E by (intro pow10_le) simp
  then have "\<not> 10 powi (E + 1) \<le> \<bar>toPrecision P x\<bar>"
    using small by linarith
  then show ?thesis
    using small by (simp add: decimalContext_def Let_def)
qed


lemma decimalContext_exactOnIntegers:
  assumes P: "78 \<le> P" and E: "78 \<le> E"
  shows "exactOnIntegers (decimalContext P E)"
  unfolding exactOnIntegers_def
proof (intro allI impI)
  fix m :: int
  assume m: "\<bar>m\<bar> < 2 ^ 257"
  have "(2::int) ^ 257 < 10 ^ 78" by simp
  also have "(10::int) ^ 78 \<le> 10 ^ P" using P by (intro power_increasing) simp_all
  finally have mP: "\<bar>m\<bar> < 10 ^ P" using m by linarith
  have x: "real_of_int m = of_int m * 10 powi 0" by simp
  have "real_of_int m = 0 \<or> 10 powi (- E) \<le> \<bar>real_of_int m\<bar> \<and> \<bar>real_of_int m\<bar> < 10 powi (E + 1)"
  proof (cases "m = 0")
    case True
    then show ?thesis by simp
  next
    case False
    then have "1 \<le> \<bar>m\<bar>" by simp
    then have "real_of_int 1 \<le> real_of_int \<bar>m\<bar>" by (simp only: of_int_le_iff)
    then have one: "1 \<le> \<bar>real_of_int m\<bar>" by simp
    have "(10::real) powi (- E) \<le> 10 powi 0" using E by (intro pow10_le) simp
    then have lo: "10 powi (- E) \<le> \<bar>real_of_int m\<bar>" using one by simp
    have "\<bar>m\<bar> < 10 ^ 78"
      using m \<open>(2::int) ^ 257 < 10 ^ 78\<close> by linarith
    then have "real_of_int \<bar>m\<bar> < real_of_int (10 ^ 78)" by (simp only: of_int_less_iff)
    then have "\<bar>real_of_int m\<bar> < 10 ^ 78" by simp
    also have "(10::real) ^ 78 = 10 powi 78" by simp
    also have "(10::real) powi 78 \<le> 10 powi (E + 1)" using E by (intro pow10_le) simp
    finally show ?thesis using lo by simp
  qed
  then show "decimalContext P E (real_of_int m) = Fin (real_of_int m)"
    using P by (intro decimalContext_exact [OF _ x mP]) simp_all
qed


subsection \<open>Exponentials beyond the exponent limit\<close>

lemma exp_4_ge_10: "10 \<le> exp (4::real)"
proof -
  have "(2::real) \<le> exp 1" using exp_ge_add_one_self [of "1::real"] by simp
  then have "(2::real) ^ 4 \<le> exp 1 ^ 4" by (intro power_mono) simp_all
  moreover have "exp (1::real) ^ 4 = exp 4"
    using exp_of_nat_mult [of 4 "1::real"] by simp
  ultimately show ?thesis by simp
qed

lemma exp_ge_pow10:
  assumes "0 \<le> k" "4 * real_of_int k \<le> x"
  shows "10 powi k \<le> exp x"
proof -
  have "(10::real) ^ nat k \<le> exp 4 ^ nat k"
    using exp_4_ge_10 by (intro power_mono) simp_all
  also have "exp (4::real) ^ nat k = exp (real (nat k) * 4)"
    by (simp only: exp_of_nat_mult)
  also have "real (nat k) * 4 = 4 * real_of_int k"
    using assms(1) by simp
  also have "exp (4 * real_of_int k) \<le> exp x"
    using assms(2) by simp
  finally show ?thesis
    using assms(1) by (simp add: power_int_def)
qed

lemma exp_le_pow10_minus:
  assumes "0 \<le> k" "x \<le> - (4 * real_of_int k)"
  shows "exp x \<le> 10 powi (- k)"
proof -
  have "10 powi k \<le> exp (- x)"
    using assms by (intro exp_ge_pow10) simp_all
  then have "inverse (exp (- x)) \<le> inverse (10 powi k)"
    by (intro le_imp_inverse_le) simp_all
  then show ?thesis
    by (simp add: exp_minus power_int_minus)
qed

text \<open>The contexts that the closed evaluations below are about: at least 78 digits, so
  that the integers of the declared types are exact, and an exponent limit between
  \<open>79\<close> and \<open>10\<^sup>1\<^sup>7\<close>.\<close>

lemma ctx_int:
  assumes "78 \<le> P" "79 \<le> E" "\<bar>m\<bar> < 2 ^ 257"
  shows "decimalContext P E (real_of_int m) = Fin (real_of_int m)"
  using decimalContext_exactOnIntegers [of P E] assms
  by (simp add: exactOnIntegers_def)

lemma ctx_1: "78 \<le> P \<Longrightarrow> 79 \<le> E \<Longrightarrow> decimalContext P E 1 = Fin 1"
  using ctx_int [of P E 1] by simp

lemma ctx_scaled:
  assumes P: "78 \<le> P" and E: "79 \<le> E"
    and m: "0 \<le> m" "m < 10 ^ 70" and e: "0 \<le> e" "e \<le> 9"
  shows "decimalContext P E (real_of_int m / 10 ^ e) = Fin (real_of_int m / 10 ^ e)"
proof -
  have P1: "1 \<le> P" using P by simp
  have x: "real_of_int m / 10 ^ e = of_int m * 10 powi (- int e)"
    by (simp add: power_int_minus divide_inverse)
  have "(10::int) ^ 70 \<le> 10 ^ P" using P by (intro power_increasing) simp_all
  then have mP: "\<bar>m\<bar> < 10 ^ P" using m by linarith
  have "real_of_int m / 10 ^ e = 0
        \<or> 10 powi (- E) \<le> \<bar>real_of_int m / 10 ^ e\<bar> \<and> \<bar>real_of_int m / 10 ^ e\<bar> < 10 powi (E + 1)"
  proof (cases "m = 0")
    case True
    then show ?thesis by simp
  next
    case False
    then have "1 \<le> m" using m by simp
    then have "real_of_int 1 \<le> real_of_int m" by (simp only: of_int_le_iff)
    then have one: "1 \<le> real_of_int m" by simp
    have "(10::real) powi (- E) \<le> 10 powi (- int e)" using E e by (intro pow10_le) simp
    also have "\<dots> = 1 * 10 powi (- int e)" by simp
    also have "\<dots> \<le> real_of_int m * 10 powi (- int e)"
      using one by (intro mult_right_mono) simp_all
    finally have lo: "10 powi (- E) \<le> \<bar>real_of_int m / 10 ^ e\<bar>"
      using m by (simp add: x abs_mult)
    have "real_of_int m < real_of_int (10 ^ 70)" using m by (simp only: of_int_less_iff)
    then have "real_of_int m < 10 powi 70" by simp
    moreover have "real_of_int m / 10 ^ e \<le> real_of_int m"
      using m by (simp add: divide_le_eq_1 mult_le_cancel_left1 pos_divide_le_eq)
    moreover have "(10::real) powi 70 \<le> 10 powi (E + 1)" using E by (intro pow10_le) simp
    moreover have "\<bar>real_of_int m / 10 ^ e\<bar> = real_of_int m / 10 ^ e"
      using m by simp
    ultimately have "\<bar>real_of_int m / 10 ^ e\<bar> < 10 powi (E + 1)"
      by linarith
    then show ?thesis using lo by simp
  qed
  then show ?thesis
    by (intro decimalContext_exact [OF P1 x mP])
qed


subsection \<open>Two outcomes, one of them priced below what the context resolves\<close>

lemma ln2_bracket:
  shows "10 powi (- 1) \<le> ln (2::real)" and "ln (2::real) \<le> 10 powi 0"
proof -
  have "exp (1 / 10 :: real) \<le> 1 + 1 / 10 + (1 / 10)\<^sup>2"
    by (rule exp_bound) simp_all
  also have "\<dots> \<le> 2" by (simp add: power2_eq_square)
  finally have "exp (1 / 10 :: real) \<le> 2" .
  then have "(1 / 10 :: real) \<le> ln 2"
    by (rule iffD2 [OF ln_ge_iff, rotated]) simp
  moreover have "(10::real) powi (- 1) = 1 / 10" by (simp add: inverse_eq_divide)
  ultimately show "10 powi (- 1) \<le> ln (2::real)" by (simp only:)
  show "ln (2::real) \<le> 10 powi 0"
    using ln_2_less_1 by simp
qed

lemma real_of_int_bounds:
  assumes "a \<le> m" "m \<le> b"
  shows "real_of_int a \<le> real_of_int m" and "real_of_int m \<le> real_of_int b"
  using assms by (simp_all only: of_int_le_iff)

lemma liquidity_two:
  assumes P: "78 \<le> P" and E: "79 \<le> E" and F: "1 \<le> F" "F \<le> 10 ^ 10"
  shows "\<exists>\<beta>. liquidity (decimalContext P E) F [x, y] = Fin \<beta> \<and> 1 \<le> \<beta> \<and> \<beta> \<le> 10 ^ 11"
proof -
  have P1: "1 \<le> P" using P by simp
  have e1: "- E \<le> - 1" and e0: "0 \<le> E" and e11: "11 \<le> E" and e0': "- E \<le> 0"
    using E by simp_all
  obtain l where l: "decimalContext P E (ln 2) = Fin l" and lb: "10 powi (- 1) \<le> l" "l \<le> 10 powi 0"
    using decimalContext_bracket [OF P1 e1 e0 ln2_bracket(1) ln2_bracket(2)] by blast
  have l': "1 / 10 \<le> l" "l \<le> 1" "0 < l"
    using lb by (simp_all add: inverse_eq_divide)
  have F': "1 \<le> real_of_int F" "real_of_int F \<le> 10 ^ 10"
    using real_of_int_bounds [OF F] by simp_all
  have "real_of_int F * l \<le> real_of_int F * 1"
    using l' F' by (intro mult_left_mono) simp_all
  then have "real_of_int F \<le> real_of_int F / l"
    using l' by (simp add: pos_le_divide_eq)
  then have lo: "10 powi 0 \<le> real_of_int F / l" using F' by simp
  have "real_of_int F * (1 / 10) \<le> real_of_int F * l"
    using l' F' by (intro mult_left_mono) simp_all
  then have "real_of_int F / l \<le> real_of_int F * 10"
    using l' by (simp add: pos_divide_le_eq)
  then have "real_of_int F / l \<le> 10 ^ 11" using F' by simp
  then have hi: "real_of_int F / l \<le> 10 powi 11" by simp
  obtain \<beta> where \<beta>: "decimalContext P E (real_of_int F / l) = Fin \<beta>"
      and \<beta>b: "10 powi 0 \<le> \<beta>" "\<beta> \<le> 10 powi 11"
    using decimalContext_bracket [OF P1 e0' e11 lo hi] by blast
  have "liquidity (decimalContext P E) F [x, y] = Fin \<beta>"
    using l l' \<beta> by (simp add: liquidity_def Decimal_def)
  then show ?thesis using \<beta>b by simp
qed


lemma feeUp_ctx:
  assumes P: "78 \<le> P" and E: "79 \<le> E" and f: "0 \<le> f" "f < 2 ^ 24"
  shows "feeUp (decimalContext P E) f = Fin (1 + real_of_int f / 1000000)"
proof -
  have q: "decimalContext P E (real_of_int f / 1000000) = Fin (real_of_int f / 1000000)"
    using ctx_scaled [OF P E, of f 6] f by simp
  have "decimalContext P E (real_of_int (1000000 + f) / 10 ^ 6)
        = Fin (real_of_int (1000000 + f) / 10 ^ 6)"
    using f by (intro ctx_scaled [OF P E]) simp_all
  moreover have "real_of_int (1000000 + f) / 10 ^ 6 = 1 + real_of_int f / 1000000"
    by (simp add: add_divide_distrib)
  ultimately have "decimalContext P E (1 + real_of_int f / 1000000)
                   = Fin (1 + real_of_int f / 1000000)"
    by (simp only:)
  then show ?thesis
    by (simp add: feeUp_def Decimal_def q)
qed


lemma term_unit:
  assumes P: "78 \<le> P" and E: "79 \<le> E" and \<beta>: "\<beta> \<noteq> 0"
  shows "dexp (decimalContext P E) (dividedBy (decimalContext P E) (Fin 0) (Fin \<beta>)) = Fin 1"
  using \<beta> by (simp add: decimalContext_zero ctx_1 [OF P E])

lemma term_underflow:
  assumes P: "78 \<le> P" and E: "79 \<le> E" "E \<le> 10 ^ 17"
    and v: "- (10 ^ 77) \<le> v" "v \<le> - (10 ^ 29)" and \<beta>: "1 \<le> \<beta>" "\<beta> \<le> 10 ^ 11"
  shows "dexp (decimalContext P E) (dividedBy (decimalContext P E) (Fin v) (Fin \<beta>)) = Fin 0"
proof -
  have P1: "1 \<le> P" using P by simp
  have E0: "0 \<le> E" and e18: "- E \<le> 18" and e77: "77 \<le> E" using E by simp_all
  have "v * 1 \<le> v / \<beta> * \<beta>" using \<beta> by simp
  have "v \<le> v / \<beta>"
  proof -
    have "v * \<beta> \<le> v * 1" using v \<beta> by (intro mult_left_mono_neg) simp_all
    then show ?thesis using \<beta> by (simp add: pos_le_divide_eq)
  qed
  then have lo: "- (10 powi 77) \<le> v / \<beta>" using v by simp
  have "- v \<ge> 10 ^ 29" using v by simp
  have "v / \<beta> \<le> - (10 ^ 18)"
  proof -
    have "10 ^ 18 * \<beta> \<le> 10 ^ 18 * (10 ^ 11 :: real)"
      using \<beta> by (intro mult_left_mono) simp_all
    then have "10 ^ 18 * \<beta> \<le> - v" using v by simp
    then have "v \<le> - (10 ^ 18) * \<beta>" by simp
    then show ?thesis using \<beta> by (simp add: pos_divide_le_eq)
  qed
  then have hi: "v / \<beta> \<le> - (10 powi 18)" by simp
  obtain a where a: "decimalContext P E (v / \<beta>) = Fin a" and ab: "a \<le> - (10 powi 18)"
    using decimalContext_bracket_neg [OF P1 e18 e77 lo hi] by blast
  have "real_of_int E \<le> 10 ^ 17"
    using real_of_int_bounds(2) [OF _ E(2), of E] by simp
  then have "4 * real_of_int (E + 2) \<le> 10 ^ 18" by simp
  then have "a \<le> - (4 * real_of_int (E + 2))" using ab by simp
  then have "exp a \<le> 10 powi (- (E + 2))"
    using E0 by (intro exp_le_pow10_minus) simp_all
  moreover have "(10::real) powi (- (E + 2)) < 10 powi (- E - 1)"
    by (intro power_int_strict_increasing) simp_all
  ultimately have "\<bar>exp a\<bar> < 10 powi (- E - 1)" by simp
  then have "decimalContext P E (exp a) = Fin 0"
    by (rule decimalContext_underflow [OF P1 E0])
  then show ?thesis using a \<beta> by simp
qed


lemma entry_cheap:
  assumes P: "78 \<le> P" and E: "79 \<le> E"
    and s: "- (2 ^ 255) \<le> s" "s \<le> - (10 ^ 30)" and d: "- (10 ^ 10) \<le> d" "d \<le> 10 ^ 10"
  shows "\<exists>v. decimalContext P E (real_of_int s + real_of_int d) = Fin v
             \<and> - (10 ^ 77) \<le> v \<and> v \<le> - (10 ^ 29)"
proof -
  have P1: "1 \<le> P" using P by simp
  have e29: "- E \<le> 29" and e77: "77 \<le> E" using E by simp_all
  have "- (10 ^ 77) \<le> s + d" "s + d \<le> - (10 ^ 29)" using s d by simp_all
  then have "real_of_int (- (10 ^ 77)) \<le> real_of_int (s + d)"
    and "real_of_int (s + d) \<le> real_of_int (- (10 ^ 29))"
    by (simp_all only: of_int_le_iff)
  then have "- (10 powi 77) \<le> real_of_int s + real_of_int d"
    and "real_of_int s + real_of_int d \<le> - (10 powi 29)"
    by simp_all
  then obtain v where "decimalContext P E (real_of_int s + real_of_int d) = Fin v"
    "- (10 powi 77) \<le> v" "v \<le> - (10 powi 29)"
    using decimalContext_bracket_neg [OF P1 e29 e77] by blast
  then show ?thesis by simp
qed


lemma enumerate_two: "enumerate 0 [x, y] = [(0, x), (1, y)]"
  by simp





lemma cheap_count:
  assumes P: "78 \<le> P" and E: "79 \<le> E" "E \<le> 10 ^ 17"
    and s: "- (2 ^ 255) \<le> s" "s \<le> - (10 ^ 30)" and F: "1 \<le> F" "F \<le> 10 ^ 10"
    and f: "0 \<le> f" "f < 2 ^ 24"
  shows "inversionLogArgument (decimalContext P E) [s, 0] F 0 0 f = Fin 0"
    and "calcLMSROutcomeTokenCount (decimalContext P E) [s, 0] F 0 0 f = Inr NInf"
proof -
  let ?r = "decimalContext P E"
  obtain \<beta> where b: "liquidity ?r F [s, 0] = Fin \<beta>" and \<beta>: "1 \<le> \<beta>" "\<beta> \<le> 10 ^ 11"
    using liquidity_two [OF P E(1) F] by blast
  have \<beta>0: "\<beta> \<noteq> 0" using \<beta> by simp
  obtain v where v: "?r (real_of_int s + real_of_int 0) = Fin v"
      and vb: "- (10 ^ 77) \<le> v" "v \<le> - (10 ^ 29)"
    using entry_cheap [OF P E(1) s, of 0] by auto
  have v': "?r (real_of_int s) = Fin v" using v by simp
  note under = term_underflow [OF P E vb \<beta>]
  note unit = term_unit [OF P E(1) \<beta>0]
  have net: "dividedBy ?r (Decimal 0) (feeUp ?r f) = Fin 0"
    using f by (simp add: feeUp_ctx [OF P E(1) f] Decimal_def decimalContext_zero
        add_nonneg_eq_0_iff)
  have paid: "sumExpPaid ?r (Fin \<beta>) (Decimal 0) f [s, 0] = Fin 1"
    unfolding sumExpPaid_def net
    by (simp add: Decimal_def v' under unit decimalContext_zero ctx_1 [OF P E(1)]
        del: dividedBy.simps dexp.simps)
  have others: "sumExpOthers ?r (Fin \<beta>) 0 [s, 0] = Fin 1"
    unfolding sumExpOthers_def enumerate_two
    by (simp add: Decimal_def unit decimalContext_zero ctx_1 [OF P E(1)]
        del: dividedBy.simps dexp.simps)
  show arg: "inversionLogArgument ?r [s, 0] F 0 0 f = Fin 0"
    by (simp add: inversionLogArgument_def Let_def b paid others decimalContext_zero)
  show "calcLMSROutcomeTokenCount ?r [s, 0] F 0 0 f = Inr NInf"
    using \<beta> by (simp add: calcLMSROutcomeTokenCount_def Let_def arg b signed_inf_def Decimal_def)
qed



lemma liquidity_unfunded_two:
  assumes P: "78 \<le> P" and E: "79 \<le> E"
  shows "liquidity (decimalContext P E) 0 [x, y] = Fin 0"
proof -
  have P1: "1 \<le> P" using P by simp
  have e1: "- E \<le> - 1" and e0: "0 \<le> E" using E by simp_all
  obtain l where l: "decimalContext P E (ln 2) = Fin l" and lb: "10 powi (- 1) \<le> l"
    using decimalContext_bracket [OF P1 e1 e0 ln2_bracket(1) ln2_bracket(2)] by blast
  have "0 < (10::real) powi (- 1)" by simp
  then have "l \<noteq> 0" using lb by linarith
  then show ?thesis
    using l by (simp add: liquidity_def Decimal_def decimalContext_zero)
qed

lemma no_position_cost:
  assumes P: "78 \<le> P" and E: "79 \<le> E" and F: "1 \<le> F" "F \<le> 10 ^ 10"
    and i: "i < 0 \<or> 2 \<le> i" and f: "0 \<le> f" "f < 2 ^ 24"
  shows "calcLMSRCost (decimalContext P E) [0, 0] F i k f = Fin 0"
proof -
  let ?r = "decimalContext P E"
  have P1: "1 \<le> P" using P by simp
  have e1: "- E \<le> - 1" and e0: "0 \<le> E" using E by simp_all
  obtain \<beta> where b: "liquidity ?r F [0, 0] = Fin \<beta>" and \<beta>: "1 \<le> \<beta>" "\<beta> \<le> 10 ^ 11"
    using liquidity_two [OF P E F] by blast
  have \<beta>0: "\<beta> \<noteq> 0" using \<beta> by simp
  obtain l where l: "?r (ln 2) = Fin l"
    using decimalContext_bracket [OF P1 e1 e0 ln2_bracket(1) ln2_bracket(2)] by blast
  note unit = term_unit [OF P E \<beta>0]
  have two: "?r 2 = Fin 2" using ctx_int [OF P E, of 2] by simp
  have i0: "i \<noteq> 0" and i1: "i \<noteq> 1" using i by auto
  have bought: "sumExpBought ?r (Fin \<beta>) i (Decimal k) [0, 0] = Fin 2"
    unfolding sumExpBought_def enumerate_two
    using i0 i1
    by (simp add: Decimal_def unit two decimalContext_zero ctx_1 [OF P E]
        del: dividedBy.simps dexp.simps)
  have plain: "sumExp ?r (Fin \<beta>) [0, 0] = Fin 2"
    unfolding sumExp_def
    by (simp add: Decimal_def unit two decimalContext_zero ctx_1 [OF P E]
        del: dividedBy.simps dexp.simps)
  have F0: "F \<noteq> 0" using F by simp
  show ?thesis
    using F0
    by (simp add: calcLMSRCost_def Let_def b bought plain l feeUp_ctx [OF P E f]
        decimalContext_zero one_plus_1e_9_def)
qed


lemma configured_exactOnIntegers: "exactOnIntegers configured"
  unfolding configured_def by (rule decimalContext_exactOnIntegers) simp_all

section \<open>The claims\<close>

text \<open>
  C1. For a funded market (\<open>funding > 0\<close>), a vector of length \<open>n \<ge> 2\<close>, an index in
  range, a count \<open>k \<ge> 0\<close> and a fee factor in \<open>[0, 1e6)\<close>, all fitting the declared
  types, \<^verbatim>\<open>calcLMSRCost\<close> returns the ceiling of
  \<open>b \<times> (ln \<Sum>\<^sub>j exp (sold'\<^sub>j / b) - ln \<Sum>\<^sub>j exp (sold\<^sub>j / b)) \<times> (1 + f / 1e6) \<times> (1 + 1e-9)\<close>
  with \<open>b = funding / ln n\<close> and \<open>sold'\<close> the vector with \<open>k\<close> added at the index, both
  sides evaluated in the same decimal context, whatever its precision, provided that it
  represents the integers exactly.
\<close>

theorem calcLMSRCost_funded_formula:
  assumes "exactOnIntegers r" and "fitsInputs sold funding i k f" and "0 < funding"
    and "2 \<le> length sold" and "i < int (length sold)" and "f < 10 ^ 6"
  shows "calcLMSRCost r sold funding i k f = dceil (spec_cost r sold funding (nat i) k f)"
proof -
  have sold: "list_all (\<lambda>v. - (2 ^ 255) \<le> v \<and> v < 2 ^ 255) sold"
    and k: "0 \<le> k" "k < 2 ^ 256" and i0: "0 \<le> i"
    using assms(2) by (simp_all add: fitsInputs_def)
  have F: "funding \<noteq> 0" using assms(3) by simp
  show ?thesis
    using F
    by (simp add: calcLMSRCost_def spec_cost_def spec_logSumExp_def Let_def liquidity_def
        feeUp_def one_plus_1e_9_def sumExp_map
        sumExpBought_map [OF assms(1) sold k i0 assms(5)])
qed

theorem calcLMSRCost_funded_formula_witness:
  "calcLMSRCost configured [0, 0] 100 0 10 0
   = dceil (spec_cost configured [0, 0] 100 (nat 0) 10 0)"
  using calcLMSRCost_funded_formula [of configured "[0, 0]" 100 0 10 0]
    configured_exactOnIntegers
  by (simp add: fitsInputs_def)

text \<open>
  C2. With \<open>funding = 0\<close> and \<open>feeFactor = 0\<close> the cost of \<open>7\<close> tokens is \<open>8\<close>, not \<open>7\<close>:
  the factor \<open>1 + 1e-9\<close> and the ceiling of the return statement are applied to the
  unfunded base cost as well. The profit is \<open>0\<close>.
\<close>

theorem unfunded_cost_of_seven:
  "calcLMSRCost configured [5, - 3] 0 0 7 0 = Fin 8
   \<and> calcLMSRProfit configured [5, - 3] 0 0 7 0 = Fin 0"
proof -
  have P: "78 \<le> (80::nat)" and E: "79 \<le> (9000000000000000::int)" by simp_all
  have fee: "feeUp configured 0 = Fin 1"
    using feeUp_ctx [OF P E, of 0] by (simp add: configured_def)
  have seven: "configured 7 = Fin 7"
    using ctx_int [OF P E, of 7] by (simp add: configured_def)
  have biased: "configured (7000000007 / 1000000000) = Fin (7000000007 / 1000000000)"
    using ctx_scaled [OF P E, of 7000000007 9] by (simp add: configured_def)
  show ?thesis
    by (simp add: calcLMSRCost_def calcLMSRProfit_def Decimal_def one_plus_1e_9_def
        fee seven biased)
qed

text \<open>
  C3, as stated, fails: in the funded two-outcome market with \<open>[-10\<^sup>3\<^sup>0, 0]\<close> sold and
  funding \<open>1\<close>, the exponential of outcome 0 is below what the context resolves; at cost
  \<open>0\<close> the argument of the final logarithm is \<open>0\<close>, and
  \<^verbatim>\<open>calcLMSROutcomeTokenCount\<close> raises nothing: it returns the decimal \<open>-\<infinity>\<close>.
\<close>

theorem undefined_inverse_counterexample:
  "inversionLogArgument configured [- (10 ^ 30), 0] 1 0 0 0 = Fin 0
   \<and> calcLMSROutcomeTokenCount configured [- (10 ^ 30), 0] 1 0 0 0 = Inr NInf"
  unfolding configured_def
  using cheap_count [of 80 9000000000000000 "- (10 ^ 30)" 1 0]
  by simp

text \<open>
  C3, amended. For every input with the index in range and a liquidity parameter that is
  a positive finite number, in every rounding context: when the argument of the final
  logarithm is non-positive, \<^verbatim>\<open>calcLMSROutcomeTokenCount\<close> raises no error. Its result is
  the decimal \<open>-\<infinity>\<close> when the argument is zero and the decimal NaN when it is negative,
  so never a finite number.
\<close>

theorem nonpositive_log_argument_not_an_error:
  assumes i: "0 \<le> i" "i < int (length sold)"
    and b: "liquidity r funding sold = Fin \<beta>" "0 < \<beta>"
    and arg: "nonPositive (inversionLogArgument r sold funding i cost f)"
  shows "calcLMSROutcomeTokenCount r sold funding i cost f
         = Inr (if inversionLogArgument r sold funding i cost f = Fin 0 then NInf else NaN)"
proof -
  have "dfloor (dminus r (dtimes r (Fin \<beta>) (dln r a)) (Fin s))
        = (if a = Fin 0 then NInf else NaN)" if "nonPositive a" for a s
    using that b(2) by (cases a) (auto simp: signed_inf_def)
  then show ?thesis
    using i arg by (simp add: calcLMSROutcomeTokenCount_def Let_def b(1) Decimal_def)
qed

theorem nonpositive_log_argument_not_an_error_witness:
  "nonPositive (inversionLogArgument configured [- (10 ^ 40), 0] 7 0 0 50000)
   \<and> calcLMSROutcomeTokenCount configured [- (10 ^ 40), 0] 7 0 0 50000 = Inr NInf"
proof -
  have P: "78 \<le> (80::nat)" and E: "79 \<le> (9000000000000000::int)" by simp_all
  obtain \<beta> where b: "liquidity configured 7 [- (10 ^ 40), 0] = Fin \<beta>" and \<beta>: "1 \<le> \<beta>"
    using liquidity_two [OF P E, of 7 "- (10 ^ 40)" 0] by (auto simp: configured_def)
  have arg: "inversionLogArgument configured [- (10 ^ 40), 0] 7 0 0 50000 = Fin 0"
    unfolding configured_def
    using cheap_count(1) [of 80 9000000000000000 "- (10 ^ 40)" 7 50000] by simp
  show ?thesis
    using nonpositive_log_argument_not_an_error
      [of 0 "[- (10 ^ 40), 0]" configured 7 \<beta> 0 50000] b \<beta> arg
    by simp
qed

text \<open>
  C4, as stated, fails: in the unfunded state \<open>[5, -3]\<close>, which is not the all-zero state
  of the \<open>1 / n\<close> branch, \<open>b\<close> is \<open>0\<close> and every marginal price is NaN, over exact
  arithmetic and in the configured context alike.
\<close>

theorem unfunded_price_counterexample:
  "calcLMSRMarginalPrice exact [5, - 3] 0 0 = Inr NaN
   \<and> calcLMSRMarginalPrice exact [5, - 3] 0 1 = Inr NaN
   \<and> calcLMSRMarginalPrice configured [5, - 3] 0 0 = Inr NaN
   \<and> calcLMSRMarginalPrice configured [5, - 3] 0 1 = Inr NaN"
proof -
  have "liquidity configured 0 [5, - 3] = Fin 0"
    unfolding configured_def by (rule liquidity_unfunded_two) simp_all
  then show ?thesis
    by (simp add: calcLMSRMarginalPrice_def sumExpShifted_def liquidity_def
      Decimal_def signed_inf_def exact_def)
qed

text \<open>
  C4, amended. For every funded market state (\<open>funding > 0\<close>, at least two and at most
  256 outcomes, so that every index fits its type), the marginal prices of all outcomes
  are finite numbers whose sum is \<open>1\<close>, over exact arithmetic.
\<close>

theorem funded_prices_sum_to_one:
  assumes "list_all (\<lambda>v. - (2 ^ 255) \<le> v \<and> v < 2 ^ 255) sold" and "0 < funding"
    and "funding < 2 ^ 256" and "2 \<le> length sold" and "length sold \<le> 256"
  shows "\<exists>ps. length ps = length sold
            \<and> (\<forall>i < length sold.
                  calcLMSRMarginalPrice exact sold funding (int i) = Inr (Fin (ps ! i)))
            \<and> sum_list ps = 1"
proof -
  let ?\<beta> = "spec_b funding (length sold)"
  let ?ps = "map (\<lambda>s. exp (real_of_int s / ?\<beta>) / sumExpR ?\<beta> sold) sold"
  have ne: "sold \<noteq> []" using assms(4) by auto
  have S: "0 < sumExpR ?\<beta> sold" using ne by (rule sumExpR_pos)
  have "calcLMSRMarginalPrice exact sold funding (int i) = Inr (Fin (?ps ! i))"
    if "i < length sold" for i
  proof -
    have "fitsPriceInputs sold funding (int i)"
      using assms that by (simp add: fitsPriceInputs_def)
    then show ?thesis
      using calcLMSRMarginalPrice_funded [of sold funding "int i"] assms that by simp
  qed
  moreover have "sum_list ?ps = 1"
  proof -
    have "sum_list ?ps = (\<Sum>s\<leftarrow>sold. exp (real_of_int s / ?\<beta>) * inverse (sumExpR ?\<beta> sold))"
      by (simp add: divide_inverse)
    also have "\<dots> = sumExpR ?\<beta> sold * inverse (sumExpR ?\<beta> sold)"
      by (simp only: sum_list_mult_const sumExpR_def)
    finally show ?thesis using S by simp
  qed
  ultimately show ?thesis
    by (intro exI [of _ ?ps]) simp
qed

theorem funded_prices_sum_to_one_witness:
  "\<exists>ps. length ps = length [3, - 1, 4 :: int]
       \<and> (\<forall>i < length [3, - 1, 4 :: int].
             calcLMSRMarginalPrice exact [3, - 1, 4] 10 (int i) = Inr (Fin (ps ! i)))
       \<and> sum_list ps = 1"
  using funded_prices_sum_to_one [of "[3, - 1, 4]" 10]
  by simp




text \<open>
  C6, as stated, fails: \<^verbatim>\<open>calcLMSRCost\<close> computes with a vector of length \<open>1\<close>, the index
  \<open>7\<close> and the fee factor \<open>2000000\<close>: \<open>\<lceil>5 \<times> 3 \<times> 1.000000001\<rceil> = 16\<close>. In a funded market
  with two outcomes, \<open>5\<close> tokens of the outcome \<open>7\<close>, which does not exist, cost \<open>0\<close>: no
  position is identical to the index, so nothing is added.
\<close>

theorem unchecked_arguments_counterexample:
  "calcLMSRCost configured [0] 0 7 5 2000000 = Fin 16
   \<and> calcLMSRCost configured [0, 0] 100 7 5 0 = Fin 0"
proof
  have P: "78 \<le> (80::nat)" and E: "79 \<le> (9000000000000000::int)" by simp_all
  have fee: "feeUp configured 2000000 = Fin 3"
    using feeUp_ctx [OF P E, of 2000000] by (simp add: configured_def)
  have fifteen: "configured 15 = Fin 15"
    using ctx_int [OF P E, of 15] by (simp add: configured_def)
  have biased: "configured (15000000015 / 1000000000) = Fin (15000000015 / 1000000000)"
    using ctx_scaled [OF P E, of 15000000015 9] by (simp add: configured_def)
  have "(15000000015 / 1000000000 :: real) = 3000000003 / 200000000" by simp
  then have biased': "configured (3000000003 / 200000000) = Fin (3000000003 / 200000000)"
    using biased by simp
  show "calcLMSRCost configured [0] 0 7 5 2000000 = Fin 16"
    by (simp add: calcLMSRCost_def Decimal_def one_plus_1e_9_def fee fifteen biased')
  show "calcLMSRCost configured [0, 0] 100 7 5 0 = Fin 0"
    unfolding configured_def by (rule no_position_cost) simp_all
qed

text \<open>
  C6, amended. The pricing functions check none of their arguments themselves, in any
  decimal context. With an \<^verbatim>\<open>outcomeTokenIndex\<close> that is no position of the vector,
  \<^verbatim>\<open>calcLMSRCost\<close> in a funded market and \<^verbatim>\<open>calcLMSRProfit\<close> raise nothing and silently
  ignore the token count: they return what they return for any other count.
  \<^verbatim>\<open>calcLMSROutcomeTokenCount\<close> then raises a DecimalError, after its arithmetic;
  \<^verbatim>\<open>calcLMSRMarginalPrice\<close> returns \<open>1 / n\<close> in its unfunded all-zero branch and otherwise
  raises a DecimalError on the empty vector and a TypeError on any other.
\<close>

theorem index_without_position:
  assumes "\<not> (0 \<le> i \<and> i < int (length sold))"
  shows "(funding \<noteq> 0 \<longrightarrow> calcLMSRCost r sold funding i k f = calcLMSRCost r sold funding i k' f)
         \<and> calcLMSRProfit r sold funding i k f = calcLMSRProfit r sold funding i k' f
         \<and> calcLMSROutcomeTokenCount r sold funding i c f = Inl DecimalError
         \<and> calcLMSRMarginalPrice r sold funding i
           = (if funding = 0 \<and> list_all (\<lambda>quantity. quantity = 0) sold
              then Inr (dividedBy r (Decimal 1) (Decimal (int (length sold))))
              else if sold = [] then Inl DecimalError else Inl TypeError)"
proof (intro conjI impI)
  assume "funding \<noteq> 0"
  then show "calcLMSRCost r sold funding i k f = calcLMSRCost r sold funding i k' f"
    by (simp add: calcLMSRCost_def Let_def
        sumExpBought_no_position [OF assms, of r _ "Decimal k" "Decimal k'"])
next
  show "calcLMSRProfit r sold funding i k f = calcLMSRProfit r sold funding i k' f"
    by (simp add: calcLMSRProfit_def Let_def
        sumExpSold_no_position [OF assms, of r _ "Decimal k" "Decimal k'"])
next
  show "calcLMSROutcomeTokenCount r sold funding i c f = Inl DecimalError"
    using assms by (simp add: calcLMSROutcomeTokenCount_def Let_def)
next
  show "calcLMSRMarginalPrice r sold funding i
           = (if funding = 0 \<and> list_all (\<lambda>quantity. quantity = 0) sold
              then Inr (dividedBy r (Decimal 1) (Decimal (int (length sold))))
              else if sold = [] then Inl DecimalError else Inl TypeError)"
    using assms by (cases sold) (auto simp: calcLMSRMarginalPrice_def Let_def)
qed

theorem index_without_position_witness:
  "calcLMSRCost configured [3, - 1, 4] 100 256 5 0 = calcLMSRCost configured [3, - 1, 4] 100 256 0 0
   \<and> calcLMSRProfit configured [3, - 1, 4] 100 256 5 0
     = calcLMSRProfit configured [3, - 1, 4] 100 256 0 0
   \<and> calcLMSROutcomeTokenCount configured [3, - 1, 4] 100 256 5 0 = Inl DecimalError
   \<and> calcLMSRMarginalPrice configured [3, - 1, 4] 100 256 = Inl TypeError"
  using index_without_position [of 256 "[3, - 1, 4]" 100 configured 5 0 0 5]
  by simp







text \<open>
  C9. For a funded market state and an index in range, the value that
  \<^verbatim>\<open>calcLMSRMarginalPrice\<close> computes in the shifted form, with the offset
  \<open>max(netOutcomeTokensSold) / b\<close> subtracted inside every exponential, is over exact
  arithmetic the unshifted ratio \<open>exp (sold\<^sub>i / b) / \<Sum>\<^sub>j exp (sold\<^sub>j / b)\<close>, in which the
  offset does not occur.
\<close>

theorem marginal_price_is_unshifted_ratio:
  assumes "fitsPriceInputs sold funding i" and "0 < funding" and "2 \<le> length sold"
    and "i < int (length sold)"
  shows "calcLMSRMarginalPrice exact sold funding i
         = Inr (Fin (spec_unshifted_price sold funding (nat i)))"
  using calcLMSRMarginalPrice_funded [OF assms]
  by (simp add: spec_unshifted_price_def sumExpR_def Let_def)

theorem marginal_price_is_unshifted_ratio_witness:
  "calcLMSRMarginalPrice exact [7, - 2, 40] 100 2
   = Inr (Fin (spec_unshifted_price [7, - 2, 40] 100 (nat 2)))"
  using marginal_price_is_unshifted_ratio [of "[7, - 2, 40]" 100 2]
  by (simp add: fitsPriceInputs_def)




end
